theory Spec2Isabelle
  imports Main "HOL-Library.Multiset"
begin

section \<open>Brawl Stars map rotation: \<open>utils/brawl_maps.py\<close>\<close>

text \<open>
  The module holds a table of game modes (\<open>MAP_ROTATION\<close>), draws a number of distinct
  modes and one map per mode from a random source (\<open>pick_unique_mode_maps\<close>), and renders
  a selection as text (\<open>format_rotation_message\<close>).

  Python strings are modelled as \<open>string\<close> holding the UTF-8 bytes of the text. The
  module only concatenates and compares strings, and UTF-8 encoding is injective and
  commutes with concatenation, so nothing is lost. The accented letters and the dash of the
  source are written as their byte sequences.
\<close>

subsection \<open>Strings of the source that are not ASCII\<close>

abbreviation e_acute :: string where
  "e_acute \<equiv> [CHR 0xC3, CHR 0xA9]"

abbreviation e_grave :: string where
  "e_grave \<equiv> [CHR 0xC3, CHR 0xA8]"

abbreviation e_circumflex :: string where
  "e_circumflex \<equiv> [CHR 0xC3, CHR 0xAA]"

abbreviation A_grave :: string where
  "A_grave \<equiv> [CHR 0xC3, CHR 0x80]"

abbreviation E_acute :: string where
  "E_acute \<equiv> [CHR 0xC3, CHR 0x89]"

abbreviation em_dash :: string where
  "em_dash \<equiv> [CHR 0xE2, CHR 0x80, CHR 0x94]"

abbreviation newline :: string where
  "newline \<equiv> [CHR 0x0A]"

subsection \<open>Data model\<close>

text \<open>The frozen dataclass \<open>MapDefinition\<close>: three string fields, compared by value.\<close>

record MapDefinition =
  mode :: string
  map_name :: string
  emoji :: string

text \<open>
  The inner dictionary of a table entry. The code reads two keys of it, \<open>"emoji"\<close> (a string) and
  \<open>"maps"\<close> (a sequence of strings), both with \<open>dict.get\<close> and a default, so either key may
  be absent: \<open>None\<close> is the absent key.
\<close>

record payload =
  emoji_entry :: "string option"
  maps_entry :: "string list option"

text \<open>
  \<open>MAP_ROTATION\<close> is a dictionary; \<open>list(MAP_ROTATION.items())\<close> lists its items in
  insertion order, and the random source samples that list by position. The table is
  therefore an association list in the order of the source literal.
\<close>

type_synonym rotation = "(string \<times> payload) list"

definition MAP_ROTATION :: rotation where
  "MAP_ROTATION =
    [(''Razzia de gemmes'',
        \<lparr>emoji_entry = Some ''<:GemGrab:1436473738765008976>'',
         maps_entry = Some [''Mine hard-rock'', ''Tunnel de mine'', ''Bruissements'']\<rparr>),
     (''Brawlball'',
        \<lparr>emoji_entry = Some ''<:Brawlball:1436473735573143562>'',
         maps_entry = Some [''Tir au buts'', ''Super plage'', ''Triple Dribble'']\<rparr>),
     (''Hors-jeu'',
        \<lparr>emoji_entry = Some ''<:KnockOut:1436473703083937914>'',
         maps_entry = Some [''Rocher de la belle'', ''Ravin du bras d'or'',
                            A_grave @ '' d'' @ e_acute @ ''couvert'']\<rparr>),
     (''Braquage'',
        \<lparr>emoji_entry = Some ''<:Heist:1436473730812481546>'',
         maps_entry = Some [''C'est chaud patate'',
                            ''Arr'' @ e_circumflex @ ''t au stand'',
                            ''Zone s'' @ e_acute @ ''curis'' @ e_acute @ ''e'']\<rparr>),
     (''Zone r'' @ e_acute @ ''serv'' @ e_acute @ ''e'',
        \<lparr>emoji_entry = Some ''<:HotZone:1436473698491175137>'',
         maps_entry = Some [''Duel de scarab'' @ e_acute @ ''es'', ''Cercle de feu'',
                            ''Strat'' @ e_acute @ ''gies parall'' @ e_grave @ ''les'']\<rparr>),
     (''Prime'',
        \<lparr>emoji_entry = Some ''<:Bounty:1436473727519948962>'',
         maps_entry = Some [''Cachette secr'' @ e_grave @ ''te'',
                            E_acute @ ''toile filante'', ''Mille-feuille'']\<rparr>)]"

text \<open>The only exception the module raises is \<open>ValueError\<close>, with a message.\<close>

datatype error = ValueError string

subsection \<open>The random source\<close>

text \<open>
  \<open>random_source\<close> is either the \<open>random.Random\<close> object passed as \<open>rng\<close> or the
  \<open>random\<close> module. It belongs to the Python standard library, not to this module, so it is a
  parameter: a generator state of type \<open>'s\<close> and the two methods the code calls on it,
  each returning its result and the next state. The methods are taken at the types the code
  uses them at: \<open>sample\<close> on the list of table items, \<open>choice\<close> on a tuple of map names.
\<close>

record 's random_source =
  sample :: "rotation \<Rightarrow> nat \<Rightarrow> 's \<Rightarrow> rotation \<times> 's"
  choice :: "string list \<Rightarrow> 's \<Rightarrow> string \<times> 's"

text \<open>
  What the library documents for the two methods: \<open>sample(population, k)\<close> with
  \<open>k \<le> len(population)\<close> returns \<open>k\<close> elements taken from pairwise different
  positions of the population, and \<open>choice(seq)\<close> on a non-empty sequence returns one of
  its elements.
\<close>

definition random_source_ok :: "'s random_source \<Rightarrow> bool" where
  "random_source_ok RS \<longleftrightarrow>
     (\<forall>population k s. k \<le> length population \<longrightarrow>
        length (fst (sample RS population k s)) = k \<and>
        mset (fst (sample RS population k s)) \<subseteq># mset population) \<and>
     (\<forall>seq s. seq \<noteq> [] \<longrightarrow> fst (choice RS seq s) \<in> set seq)"

text \<open>
  The state the module works on: the table bound to the module attribute \<open>MAP_ROTATION\<close>
  and the state of a generator. For the body of \<open>pick_unique_mode_maps\<close> the generator is
  the object \<open>random_source\<close> it draws from; for a whole call
  (\<open>pick_unique_mode_maps_call\<close> below) it is the generator behind the \<open>random\<close> module.
\<close>

record 's module_state =
  rotation_table :: rotation
  random_state :: 's

subsection \<open>The functions of the module\<close>

text \<open>
  \<open>_normalise_count\<close>: three checks in the order of the source, then the count itself.
  The parameter \<open>count\<close> is written \<open>cnt\<close>.
\<close>

definition normalise_count :: "int \<Rightarrow> int \<Rightarrow> error + int" where
  "normalise_count cnt available =
     (if cnt \<le> 0 then Inl (ValueError ''count must be strictly positive'')
      else if available \<le> 0 then Inl (ValueError ''no map modes configured'')
      else if cnt > available
        then Inl (ValueError ''requested map count exceeds the number of modes'')
      else Inr cnt)"

text \<open>\<open>tuple(payload.get("maps", ()))\<close> and \<open>str(payload.get("emoji", ""))\<close>.\<close>

definition payload_maps :: "payload \<Rightarrow> string list" where
  "payload_maps p = (case maps_entry p of None \<Rightarrow> [] | Some ms \<Rightarrow> ms)"

definition payload_emoji :: "payload \<Rightarrow> string" where
  "payload_emoji p = (case emoji_entry p of None \<Rightarrow> [] | Some e \<Rightarrow> e)"

text \<open>
  The \<open>for mode, payload in selected_modes\<close> loop, with \<open>selection\<close> as the accumulator it
  appends to. An entry without maps raises; the draws made before it stay consumed.
\<close>

fun select_maps ::
  "'s random_source \<Rightarrow> rotation \<Rightarrow> MapDefinition list \<Rightarrow> 's \<Rightarrow>
     (error + MapDefinition list) \<times> 's" where
  "select_maps RS [] selection s = (Inr selection, s)"
| "select_maps RS ((m, p) # rest) selection s =
     (let maps = payload_maps p; emo = payload_emoji p in
      if maps = []
        then (Inl (ValueError (''mode '' @ [CHR 0x27] @ m @ [CHR 0x27] @ '' has no maps configured'')), s)
      else (case choice RS maps s of (chosen, s') \<Rightarrow>
              select_maps RS rest
                (selection @ [\<lparr>mode = m, map_name = chosen, emoji = emo\<rparr>]) s'))"

text \<open>
  \<open>pick_unique_mode_maps(count, rng)\<close>. The count is passed explicitly (the default of
  the source is 3), and \<open>random_state\<close> is the state of \<open>rng or random\<close>. The text
  follows the source: list the items of the table, validate the count, sample the modes, run
  the loop. An exception leaves the state as it is at the raise.
\<close>

definition pick_unique_mode_maps ::
  "'s random_source \<Rightarrow> int \<Rightarrow> 's module_state \<Rightarrow>
     (error + MapDefinition list) \<times> 's module_state" where
  "pick_unique_mode_maps RS cnt st =
     (let available_modes = rotation_table st in
      case normalise_count cnt (int (length available_modes)) of
        Inl e \<Rightarrow> (Inl e, st)
      | Inr normalised \<Rightarrow>
          (case sample RS available_modes (nat normalised) (random_state st) of
             (selected_modes, s1) \<Rightarrow>
               (case select_maps RS selected_modes [] s1 of
                  (res, s2) \<Rightarrow> (res, st\<lparr>random_state := s2\<rparr>))))"



text \<open>The f-string of \<open>format_rotation_message\<close>, its loop, and \<open>str.join\<close>.\<close>

definition chunk :: "MapDefinition \<Rightarrow> string" where
  "chunk item = emoji item @ '' **'' @ mode item @ ''** '' @ em_dash @ '' '' @ map_name item"

fun format_loop :: "MapDefinition list \<Rightarrow> string list \<Rightarrow> string list" where
  "format_loop [] formatted_chunks = formatted_chunks"
| "format_loop (item # rest) formatted_chunks =
     format_loop rest (formatted_chunks @ [chunk item])"

fun str_join :: "string \<Rightarrow> string list \<Rightarrow> string" where
  "str_join sep [] = []"
| "str_join sep [x] = x"
| "str_join sep (x # y # ys) = x @ sep @ str_join sep (y # ys)"

definition format_rotation_message :: "MapDefinition list \<Rightarrow> string" where
  "format_rotation_message selection = str_join newline (format_loop selection [])"

subsection \<open>The table invariant\<close>

text \<open>
  Mode names are dictionary keys, hence pairwise different, and every mode has at least one
  map.
\<close>

definition rotation_ok :: "rotation \<Rightarrow> bool" where
  "rotation_ok table \<longleftrightarrow>
     distinct (map fst table) \<and> (\<forall>item \<in> set table. payload_maps (snd item) \<noteq> [])"

subsection \<open>A scripted random source\<close>

text \<open>
  An instance of the random source for concrete runs: its state is the list of numbers still
  to be drawn. \<open>draw_below n\<close> takes the next number, reduced below \<open>n\<close>;
  \<open>scripted_sample\<close> draws a position of the remaining pool \<open>k\<close> times and takes the
  element out; \<open>scripted_choice\<close> draws one position.
\<close>

fun draw_below :: "nat \<Rightarrow> nat list \<Rightarrow> nat \<times> nat list" where
  "draw_below n [] = (0, [])"
| "draw_below n (d # ds) = (d mod n, ds)"

fun scripted_sample :: "'a list \<Rightarrow> nat \<Rightarrow> nat list \<Rightarrow> 'a list \<times> nat list" where
  "scripted_sample pool 0 ds = ([], ds)"
| "scripted_sample pool (Suc k) ds =
     (if pool = [] then ([], ds)
      else (case draw_below (length pool) ds of (j, ds') \<Rightarrow>
              (case scripted_sample (take j pool @ drop (Suc j) pool) k ds' of
                 (xs, ds'') \<Rightarrow> (pool ! j # xs, ds''))))"

definition scripted_choice :: "'a list \<Rightarrow> nat list \<Rightarrow> 'a \<times> nat list" where
  "scripted_choice seq ds = (case draw_below (length seq) ds of (j, ds') \<Rightarrow> (seq ! j, ds'))"

definition scripted_source :: "nat list random_source" where
  "scripted_source = \<lparr>sample = scripted_sample, choice = scripted_choice\<rparr>"

subsection \<open>The scripted source keeps the contract\<close>

lemma draw_below_less: "0 < n \<Longrightarrow> fst (draw_below n ds) < n"
  by (cases ds) simp_all

lemma scripted_sample_length:
  "k \<le> length pool \<Longrightarrow> length (fst (scripted_sample pool k ds)) = k"
proof (induction k arbitrary: pool ds)
  case 0
  show ?case by simp
next
  case (Suc k)
  then have ne: "pool \<noteq> []" by auto
  obtain j ds' where dr: "draw_below (length pool) ds = (j, ds')"
    by (cases "draw_below (length pool) ds")
  have j: "j < length pool"
    using draw_below_less [of "length pool" ds] ne by (simp add: dr)
  have "k \<le> length (take j pool @ drop (Suc j) pool)"
    using Suc.prems j by simp
  from Suc.IH [OF this, of ds'] show ?case
    using ne by (auto simp: dr split: prod.splits)
qed

lemma scripted_sample_mset:
  "mset (fst (scripted_sample pool k ds)) \<subseteq># mset pool"
proof (induction k arbitrary: pool ds)
  case 0
  show ?case by simp
next
  case (Suc k)
  show ?case
  proof (cases "pool = []")
    case True
    then show ?thesis by simp
  next
    case False
    obtain j ds' where dr: "draw_below (length pool) ds = (j, ds')"
      by (cases "draw_below (length pool) ds")
    have j: "j < length pool"
      using draw_below_less [of "length pool" ds] False by (simp add: dr)
    let ?rest = "take j pool @ drop (Suc j) pool"
    have split: "mset pool = add_mset (pool ! j) (mset ?rest)"
      using id_take_nth_drop [OF j] by (metis mset.simps(2) mset_append union_mset_add_mset_right)
    have "mset (fst (scripted_sample ?rest k ds')) \<subseteq># mset ?rest"
      by (rule Suc.IH)
    then show ?thesis
      using False by (auto simp: dr split split: prod.splits)
  qed
qed

lemma scripted_source_ok: "random_source_ok scripted_source"
  unfolding random_source_ok_def scripted_source_def
proof (intro conjI allI impI)
  fix population :: rotation and k s
  assume "k \<le> length population"
  then show "length (fst (sample \<lparr>sample = scripted_sample, choice = scripted_choice\<rparr> population k s)) = k"
    by (simp add: scripted_sample_length)
next
  fix population :: rotation and k s
  show "mset (fst (sample \<lparr>sample = scripted_sample, choice = scripted_choice\<rparr> population k s)) \<subseteq># mset population"
    by (simp add: scripted_sample_mset)
next
  fix seq :: "string list" and s :: "nat list"
  assume "seq \<noteq> []"
  then have "fst (draw_below (length seq) s) < length seq"
    by (simp add: draw_below_less)
  then show "fst (choice \<lparr>sample = scripted_sample, choice = scripted_choice\<rparr> seq s) \<in> set seq"
    by (auto simp: scripted_choice_def split: prod.splits)
qed

subsection \<open>The selection loop\<close>

text \<open>Taking elements from different positions of a list with distinct keys gives distinct keys.\<close>

lemma mset_sub_distinct_map:
  assumes a: "mset xs \<subseteq># mset ys" and d: "distinct (map f ys)"
  shows "distinct (map f xs)"
proof -
  have "mset (map f xs) \<subseteq># mset (map f ys)"
    using a by (simp add: image_mset_subseteq_mono)
  then have "\<And>a. count (mset (map f xs)) a \<le> count (mset (map f ys)) a"
    by (simp add: mset_subset_eq_count)
  moreover have "\<And>a. count (mset (map f ys)) a \<le> 1"
    using d by (simp add: distinct_count_atmost_1)
  ultimately have "\<And>a. count (mset (map f xs)) a \<le> 1"
    using order_trans by blast
  then show ?thesis
    by (metis count_mset_0_iff distinct_count_atmost_1 le_antisym not_less_eq_eq le0 One_nat_def)
qed

text \<open>The loop raises exactly when some entry it is given has no maps.\<close>

lemma select_maps_isl:
  "isl (fst (select_maps RS items acc s)) \<longleftrightarrow> (\<exists>item \<in> set items. payload_maps (snd item) = [])"
proof (induction items arbitrary: acc s)
  case Nil
  show ?case by simp
next
  case (Cons item rest)
  obtain m p where item: "item = (m, p)" by (cases item)
  show ?case
  proof (cases "payload_maps p = []")
    case True
    then show ?thesis by (simp add: item)
  next
    case False
    obtain chosen s' where ch: "choice RS (payload_maps p) s = (chosen, s')"
      by (cases "choice RS (payload_maps p) s")
    show ?thesis
      using False Cons.IH [of "acc @ [\<lparr>mode = m, map_name = chosen, emoji = payload_emoji p\<rparr>]" s']
      by (simp add: item ch)
  qed
qed

text \<open>
  When the loop returns, it has appended one value per entry, in order: the entry's mode, its
  emoji (or the default), and a map name that \<open>choice\<close> returned for the entry's maps.
\<close>

lemma select_maps_Inr:
  "select_maps RS items acc s = (Inr sel, s') \<Longrightarrow>
     \<exists>new. sel = acc @ new \<and>
       list_all2 (\<lambda>item d. mode d = fst item \<and> emoji d = payload_emoji (snd item) \<and>
                    payload_maps (snd item) \<noteq> [] \<and>
                    (\<exists>t. map_name d = fst (choice RS (payload_maps (snd item)) t))) items new"
proof (induction items arbitrary: acc s)
  case Nil
  then show ?case by simp
next
  case (Cons item rest)
  obtain m p where item: "item = (m, p)" by (cases item)
  have ne: "payload_maps p \<noteq> []"
    using Cons.prems by (auto simp: item)
  obtain chosen t where ch: "choice RS (payload_maps p) s = (chosen, t)"
    by (cases "choice RS (payload_maps p) s")
  let ?d = "\<lparr>mode = m, map_name = chosen, emoji = payload_emoji p\<rparr>"
  have "select_maps RS rest (acc @ [?d]) t = (Inr sel, s')"
    using Cons.prems ne by (simp add: item ch)
  from Cons.IH [OF this] obtain new where
    new: "sel = (acc @ [?d]) @ new"
      "list_all2 (\<lambda>item d. mode d = fst item \<and> emoji d = payload_emoji (snd item) \<and>
                    payload_maps (snd item) \<noteq> [] \<and>
                    (\<exists>t. map_name d = fst (choice RS (payload_maps (snd item)) t))) rest new"
    by blast
  have "chosen = fst (choice RS (payload_maps p) s)" by (simp add: ch)
  then have "\<exists>t. map_name ?d = fst (choice RS (payload_maps p) t)" by auto
  with new ne show ?case
    by (intro exI [of _ "?d # new"]) (simp add: item)
qed

text \<open>The first entry without maps decides the error, whatever was chosen before it.\<close>

lemma select_maps_first_failure:
  "\<forall>item \<in> set pre. payload_maps (snd item) \<noteq> [] \<Longrightarrow> payload_maps p = [] \<Longrightarrow>
   fst (select_maps RS (pre @ (m, p) # post) acc s) =
     Inl (ValueError (''mode '' @ [CHR 0x27] @ m @ [CHR 0x27] @ '' has no maps configured''))"
proof (induction pre arbitrary: acc s)
  case Nil
  then show ?case by simp
next
  case (Cons item pre)
  obtain m' p' where item: "item = (m', p')" by (cases item)
  obtain chosen t where ch: "choice RS (payload_maps p') s = (chosen, t)"
    by (cases "choice RS (payload_maps p') s")
  from Cons.prems have ne: "payload_maps p' \<noteq> []" by (simp add: item)
  from Cons.prems have "\<forall>item \<in> set pre. payload_maps (snd item) \<noteq> []" by simp
  from Cons.IH [OF this Cons.prems(2)] show ?case
    using ne by (simp add: item ch)
qed

subsection \<open>\<open>_normalise_count\<close>\<close>

text \<open>
  C8. For \<open>1 \<le> count \<le> available\<close>, \<open>_normalise_count\<close> returns \<open>count\<close> unchanged, and
  whenever it returns at all the value is \<open>count\<close>: it validates and never clamps.
\<close>

theorem normalise_count_identity:
  "(1 \<le> cnt \<and> cnt \<le> available \<longrightarrow> normalise_count cnt available = Inr cnt) \<and>
   (\<forall>r. normalise_count cnt available = Inr r \<longrightarrow> r = cnt)"
  by (simp add: normalise_count_def)

theorem normalise_count_identity_witness:
  "normalise_count 3 6 = Inr 3"
  using normalise_count_identity [of 3 6] by simp

subsection \<open>The table and the validation step\<close>

lemma MAP_ROTATION_ok: "rotation_ok MAP_ROTATION"
  by (simp add: rotation_ok_def MAP_ROTATION_def payload_maps_def)

lemma length_MAP_ROTATION: "length MAP_ROTATION = 6"
  by (simp add: MAP_ROTATION_def)

lemma pick_valid:
  assumes "1 \<le> cnt" "cnt \<le> int (length (rotation_table st))"
  shows "pick_unique_mode_maps RS cnt st =
     (fst (select_maps RS (fst (sample RS (rotation_table st) (nat cnt) (random_state st))) []
             (snd (sample RS (rotation_table st) (nat cnt) (random_state st)))),
      st\<lparr>random_state :=
        snd (select_maps RS (fst (sample RS (rotation_table st) (nat cnt) (random_state st))) []
             (snd (sample RS (rotation_table st) (nat cnt) (random_state st))))\<rparr>)"
proof -
  have "normalise_count cnt (int (length (rotation_table st))) = Inr cnt"
    using assms by (auto simp: normalise_count_def)
  then show ?thesis
    by (simp add: pick_unique_mode_maps_def split: prod.splits)
qed

lemma pick_invalid:
  assumes "cnt \<le> 0 \<or> int (length (rotation_table st)) < cnt"
  shows "\<exists>e. normalise_count cnt (int (length (rotation_table st))) = Inl e \<and>
             pick_unique_mode_maps RS cnt st = (Inl e, st)"
proof -
  have "isl (normalise_count cnt (int (length (rotation_table st))))"
    using assms by (auto simp: normalise_count_def)
  then obtain e where "normalise_count cnt (int (length (rotation_table st))) = Inl e"
    by (cases "normalise_count cnt (int (length (rotation_table st)))") simp_all
  then show ?thesis
    by (simp add: pick_unique_mode_maps_def)
qed

lemma scripted_sample_run:
  "sample scripted_source MAP_ROTATION 3 [3, 4, 0, 1, 2, 1] =
     ([MAP_ROTATION ! 3, MAP_ROTATION ! 5, MAP_ROTATION ! 0], [1, 2, 1])"
  by code_simp

lemma scripted_sample_modes:
  "fst (MAP_ROTATION ! 3) = ''Braquage''"
  "fst (MAP_ROTATION ! 5) = ''Prime''"
  "fst (MAP_ROTATION ! 0) = ''Razzia de gemmes''"
  by (simp_all add: MAP_ROTATION_def)

lemma sample_in_table:
  assumes "random_source_ok RS" and "k \<le> length table"
  shows "set (fst (sample RS table k s)) \<subseteq> set table"
proof -
  from assms have "mset (fst (sample RS table k s)) \<subseteq># mset table"
    by (simp add: random_source_ok_def)
  then show ?thesis
    by (metis set_mset_mono set_mset_mset)
qed

lemma pick_no_failure:
  assumes lo: "1 \<le> cnt" and hi: "cnt \<le> int (length (rotation_table st))"
    and maps: "\<forall>item \<in> set (fst (sample RS (rotation_table st) (nat cnt) (random_state st))).
                 payload_maps (snd item) \<noteq> []"
  shows "\<exists>sel. fst (pick_unique_mode_maps RS cnt st) = Inr sel"
proof -
  let ?items = "fst (sample RS (rotation_table st) (nat cnt) (random_state st))"
  let ?s1 = "snd (sample RS (rotation_table st) (nat cnt) (random_state st))"
  from maps have "\<not> isl (fst (select_maps RS ?items [] ?s1))"
    using select_maps_isl [of RS ?items "[]" ?s1] by blast
  then obtain sel where "fst (select_maps RS ?items [] ?s1) = Inr sel"
    by (cases "fst (select_maps RS ?items [] ?s1)") simp_all
  then show ?thesis
    by (simp add: pick_valid [OF lo hi])
qed

lemma pick_Inr_valid:
  assumes "fst (pick_unique_mode_maps RS cnt st) = Inr sel"
  shows "1 \<le> cnt \<and> cnt \<le> int (length (rotation_table st))"
proof (rule ccontr)
  assume "\<not> ?thesis"
  then have "cnt \<le> 0 \<or> int (length (rotation_table st)) < cnt" by linarith
  from pick_invalid [OF this, of RS] assms show False by auto
qed

lemma pick_Inr_entries:
  assumes ret: "fst (pick_unique_mode_maps RS cnt st) = Inr sel"
  shows "list_all2 (\<lambda>item d. mode d = fst item \<and> emoji d = payload_emoji (snd item) \<and>
           payload_maps (snd item) \<noteq> [] \<and>
           (\<exists>t. map_name d = fst (choice RS (payload_maps (snd item)) t)))
         (fst (sample RS (rotation_table st) (nat cnt) (random_state st))) sel"
proof -
  let ?items = "fst (sample RS (rotation_table st) (nat cnt) (random_state st))"
  let ?s1 = "snd (sample RS (rotation_table st) (nat cnt) (random_state st))"
  from pick_Inr_valid [OF ret]
  have lo: "1 \<le> cnt" and hi: "cnt \<le> int (length (rotation_table st))" by simp_all
  have "fst (select_maps RS ?items [] ?s1) = Inr sel"
    using ret by (simp add: pick_valid [OF lo hi])
  then have "select_maps RS ?items [] ?s1 = (Inr sel, snd (select_maps RS ?items [] ?s1))"
    by (metis prod.collapse)
  from select_maps_Inr [OF this] show ?thesis by simp
qed

lemma scripted_run:
  "pick_unique_mode_maps scripted_source 3
     \<lparr>rotation_table = MAP_ROTATION, random_state = [3, 4, 0, 1, 2, 1]\<rparr> =
   (Inr [\<lparr>mode = ''Braquage'', map_name = ''Arr'' @ e_circumflex @ ''t au stand'',
           emoji = ''<:Heist:1436473730812481546>''\<rparr>,
         \<lparr>mode = ''Prime'', map_name = ''Mille-feuille'',
           emoji = ''<:Bounty:1436473727519948962>''\<rparr>,
         \<lparr>mode = ''Razzia de gemmes'', map_name = ''Tunnel de mine'',
           emoji = ''<:GemGrab:1436473738765008976>''\<rparr>],
    \<lparr>rotation_table = MAP_ROTATION, random_state = []\<rparr>)"
  by code_simp


subsection \<open>Properties of \<open>pick_unique_mode_maps\<close>\<close>

text \<open>
  C1. With a random source that keeps its contract and a table that satisfies its invariant,
  every \<open>count\<close> from 1 to the number of modes gives a selection of exactly \<open>count\<close>
  values whose modes are pairwise distinct and are the modes of the sampled entries, in
  the order of the sample.
\<close>

theorem pick_unique_mode_maps_distinct_modes:
  assumes rs: "random_source_ok RS"
    and tab: "rotation_ok (rotation_table st)"
    and lo: "1 \<le> cnt" and hi: "cnt \<le> int (length (rotation_table st))"
  shows "\<exists>sel. fst (pick_unique_mode_maps RS cnt st) = Inr sel \<and>
           length sel = nat cnt \<and> distinct (map mode sel) \<and>
           map mode sel =
             map fst (fst (sample RS (rotation_table st) (nat cnt) (random_state st)))"
proof -
  let ?T = "rotation_table st"
  let ?items = "fst (sample RS ?T (nat cnt) (random_state st))"
  have k: "nat cnt \<le> length ?T" using lo hi by simp
  from rs k have len: "length ?items = nat cnt" and sub: "mset ?items \<subseteq># mset ?T"
    by (simp_all add: random_source_ok_def)
  from sample_in_table [OF rs k] tab
  have "\<forall>item \<in> set ?items. payload_maps (snd item) \<noteq> []"
    by (auto simp: rotation_ok_def)
  from pick_no_failure [OF lo hi this]
  obtain sel where sel: "fst (pick_unique_mode_maps RS cnt st) = Inr sel" ..
  from pick_Inr_entries [OF sel]
  have rel: "list_all2 (\<lambda>item d. fst item = mode d) ?items sel"
    by (rule list_all2_mono) simp
  then have modes: "map mode sel = map fst ?items"
    by (induction rule: list_all2_induct) simp_all
  from rel have "length sel = nat cnt"
    using len by (simp add: list_all2_lengthD [symmetric])
  moreover have "distinct (map mode sel)"
    unfolding modes using sub tab by (auto intro: mset_sub_distinct_map simp: rotation_ok_def)
  ultimately show ?thesis using sel modes by blast
qed

theorem pick_unique_mode_maps_distinct_modes_witness:
  "\<exists>sel. fst (pick_unique_mode_maps scripted_source 3
              \<lparr>rotation_table = MAP_ROTATION, random_state = [3, 4, 0, 1, 2, 1]\<rparr>) = Inr sel \<and>
         length sel = 3 \<and> distinct (map mode sel) \<and>
         map mode sel = [''Braquage'', ''Prime'', ''Razzia de gemmes'']"
  using pick_unique_mode_maps_distinct_modes [OF scripted_source_ok, of
      "\<lparr>rotation_table = MAP_ROTATION, random_state = [3, 4, 0, 1, 2, 1]\<rparr>" 3]
  by (simp add: MAP_ROTATION_ok length_MAP_ROTATION scripted_sample_run scripted_sample_modes
        del: One_nat_def)

text \<open>
  C4. Every value returned by \<open>pick_unique_mode_maps\<close> comes from the table: the table has
  an entry for its mode, its map name is one of the maps of that entry, and its emoji is the
  emoji of that entry (as the code reads both, with \<open>dict.get\<close>).
\<close>

theorem pick_unique_mode_maps_from_table:
  assumes rs: "random_source_ok RS"
    and keys: "distinct (map fst (rotation_table st))"
    and ret: "fst (pick_unique_mode_maps RS cnt st) = Inr sel"
    and d: "d \<in> set sel"
  shows "\<exists>p. map_of (rotation_table st) (mode d) = Some p \<and>
             map_name d \<in> set (payload_maps p) \<and> emoji d = payload_emoji p"
proof -
  let ?T = "rotation_table st"
  let ?items = "fst (sample RS ?T (nat cnt) (random_state st))"
  from pick_Inr_valid [OF ret] have k: "nat cnt \<le> length ?T" by linarith
  note rel = pick_Inr_entries [OF ret]
  from d obtain i where i: "i < length sel" "sel ! i = d"
    by (auto simp: in_set_conv_nth)
  from rel i have il: "i < length ?items"
    by (simp add: list_all2_lengthD)
  obtain m p where mp: "?items ! i = (m, p)" by (cases "?items ! i")
  from list_all2_nthD [OF rel il] i mp
  have md: "mode d = m" and em: "emoji d = payload_emoji p" and ne: "payload_maps p \<noteq> []"
    and ch: "\<exists>t. map_name d = fst (choice RS (payload_maps p) t)"
    by simp_all
  from ch ne rs have mem: "map_name d \<in> set (payload_maps p)"
    by (auto simp: random_source_ok_def)
  have "(m, p) \<in> set ?T"
    using sample_in_table [OF rs k] il mp by (metis nth_mem subsetD)
  with keys have "map_of ?T m = Some p" by simp
  with md em mem show ?thesis by simp
qed

theorem pick_unique_mode_maps_from_table_witness:
  "\<exists>p. map_of MAP_ROTATION ''Braquage'' = Some p \<and>
       ''Arr'' @ e_circumflex @ ''t au stand'' \<in> set (payload_maps p) \<and>
       ''<:Heist:1436473730812481546>'' = payload_emoji p"
proof -
  have keys: "distinct (map fst (rotation_table
      \<lparr>rotation_table = MAP_ROTATION, random_state = [3, 4, 0, 1, 2, 1::nat]\<rparr>))"
    using MAP_ROTATION_ok by (simp add: rotation_ok_def)
  show ?thesis
    using pick_unique_mode_maps_from_table [OF scripted_source_ok keys, of 3 _
        "\<lparr>mode = ''Braquage'', map_name = ''Arr'' @ e_circumflex @ ''t au stand'',
           emoji = ''<:Heist:1436473730812481546>''\<rparr>"]
    by (simp add: scripted_run del: One_nat_def)
qed

text \<open>
  C2. \<open>pick_unique_mode_maps\<close> raises \<open>ValueError\<close> exactly when \<open>count \<le> 0\<close>, or
  \<open>count\<close> exceeds the number of modes, or the table is empty, or the count is valid and
  one of the sampled entries has no maps (an absent \<open>"maps"\<close> key reads as no maps). On a
  valid count, with a table that satisfies its invariant and a random source that keeps its
  contract, it returns a selection.
\<close>

theorem pick_unique_mode_maps_raises_iff:
  "((\<exists>msg. fst (pick_unique_mode_maps RS cnt st) = Inl (ValueError msg)) \<longleftrightarrow>
      cnt \<le> 0 \<or> int (length (rotation_table st)) < cnt \<or> rotation_table st = [] \<or>
      (1 \<le> cnt \<and> cnt \<le> int (length (rotation_table st)) \<and>
       (\<exists>item \<in> set (fst (sample RS (rotation_table st) (nat cnt) (random_state st))).
          payload_maps (snd item) = []))) \<and>
   (random_source_ok RS \<longrightarrow> rotation_ok (rotation_table st) \<longrightarrow>
      1 \<le> cnt \<longrightarrow> cnt \<le> int (length (rotation_table st)) \<longrightarrow>
      (\<exists>sel. fst (pick_unique_mode_maps RS cnt st) = Inr sel))"
proof -
  let ?T = "rotation_table st"
  let ?items = "fst (sample RS ?T (nat cnt) (random_state st))"
  let ?s1 = "snd (sample RS ?T (nat cnt) (random_state st))"
  have raises: "(\<exists>msg. r = Inl (ValueError msg)) \<longleftrightarrow> isl r" for r :: "error + MapDefinition list"
    by (cases r) (auto intro: error.exhaust)
  have iff: "isl (fst (pick_unique_mode_maps RS cnt st)) \<longleftrightarrow>
      cnt \<le> 0 \<or> int (length ?T) < cnt \<or> ?T = [] \<or>
      (1 \<le> cnt \<and> cnt \<le> int (length ?T) \<and>
       (\<exists>item \<in> set ?items. payload_maps (snd item) = []))"
  proof (cases "1 \<le> cnt \<and> cnt \<le> int (length ?T)")
    case True
    then have lo: "1 \<le> cnt" and hi: "cnt \<le> int (length ?T)" by simp_all
    then have "?T \<noteq> []" by auto
    with lo hi show ?thesis
      using select_maps_isl [of RS ?items "[]" ?s1] by (simp add: pick_valid [OF lo hi])
  next
    case False
    then have bad: "cnt \<le> 0 \<or> int (length ?T) < cnt" by linarith
    from pick_invalid [OF this, of RS] have "isl (fst (pick_unique_mode_maps RS cnt st))"
      by auto
    with bad show ?thesis by blast
  qed
  have total: "\<exists>sel. fst (pick_unique_mode_maps RS cnt st) = Inr sel"
    if rs: "random_source_ok RS" and tab: "rotation_ok ?T"
      and lo: "1 \<le> cnt" and hi: "cnt \<le> int (length ?T)"
  proof -
    have "nat cnt \<le> length ?T" using lo hi by simp
    from sample_in_table [OF rs this] tab
    have "\<forall>item \<in> set ?items. payload_maps (snd item) \<noteq> []"
      by (auto simp: rotation_ok_def)
    from pick_no_failure [OF lo hi this] show ?thesis .
  qed
  show ?thesis
    using iff total by (simp add: raises)
qed

theorem pick_unique_mode_maps_raises_iff_witness:
  "(\<exists>msg. fst (pick_unique_mode_maps scripted_source 0
              \<lparr>rotation_table = MAP_ROTATION, random_state = [3, 4, 0, 1, 2, 1]\<rparr>) =
            Inl (ValueError msg)) \<and>
   (\<exists>sel. fst (pick_unique_mode_maps scripted_source 3
              \<lparr>rotation_table = MAP_ROTATION, random_state = [3, 4, 0, 1, 2, 1]\<rparr>) = Inr sel)"
  using
    pick_unique_mode_maps_raises_iff [of scripted_source 0
      "\<lparr>rotation_table = MAP_ROTATION, random_state = [3, 4, 0, 1, 2, 1]\<rparr>"]
    pick_unique_mode_maps_raises_iff [of scripted_source 3
      "\<lparr>rotation_table = MAP_ROTATION, random_state = [3, 4, 0, 1, 2, 1]\<rparr>"]
    scripted_source_ok MAP_ROTATION_ok
  by (simp add: length_MAP_ROTATION)

text \<open>
  C10. When \<open>count \<le> 0\<close>, or \<open>count\<close> exceeds the number of modes, or the table is empty,
  the call raises \<open>ValueError\<close> and the whole state, the random source included, is what it
  was before the call: nothing has been drawn.
\<close>

theorem pick_unique_mode_maps_invalid_keeps_state:
  assumes "cnt \<le> 0 \<or> int (length (rotation_table st)) < cnt \<or> rotation_table st = []"
  shows "\<exists>msg. pick_unique_mode_maps RS cnt st = (Inl (ValueError msg), st)"
proof -
  from assms have "cnt \<le> 0 \<or> int (length (rotation_table st)) < cnt"
    by (cases "cnt \<le> 0") auto
  from pick_invalid [OF this, of RS] obtain e where
    "pick_unique_mode_maps RS cnt st = (Inl e, st)" by blast
  then show ?thesis by (cases e) simp
qed

theorem pick_unique_mode_maps_invalid_keeps_state_witness:
  "\<exists>msg. pick_unique_mode_maps scripted_source 7
           \<lparr>rotation_table = MAP_ROTATION, random_state = [3, 4, 0, 1, 2, 1]\<rparr> =
         (Inl (ValueError msg),
          \<lparr>rotation_table = MAP_ROTATION, random_state = [3, 4, 0, 1, 2, 1]\<rparr>)"
  using pick_unique_mode_maps_invalid_keeps_state [of 7
      "\<lparr>rotation_table = MAP_ROTATION, random_state = [3, 4, 0, 1, 2, 1]\<rparr>" scripted_source]
  by (simp add: length_MAP_ROTATION)




lemma pick_rotation_table:
  "rotation_table (snd (pick_unique_mode_maps RS cnt st)) = rotation_table st"
  by (simp add: pick_unique_mode_maps_def Let_def split: sum.splits prod.splits)

text \<open>
  C7. \<open>MAP_ROTATION\<close> satisfies the table invariant (distinct mode names, no empty map list),
  and \<open>pick_unique_mode_maps\<close> leaves the table of the state as it found it, so the invariant
  holds after the call as before. \<open>format_rotation_message\<close> has no access to the table: it is
  a function of the selection alone.
\<close>

theorem rotation_table_invariant:
  "rotation_ok MAP_ROTATION \<and>
   rotation_table (snd (pick_unique_mode_maps RS cnt st)) = rotation_table st \<and>
   rotation_ok (rotation_table (snd (pick_unique_mode_maps RS cnt st))) = rotation_ok (rotation_table st)"
  by (simp add: MAP_ROTATION_ok pick_rotation_table)

theorem rotation_table_invariant_witness:
  "distinct (map fst MAP_ROTATION) \<and>
   payload_maps (snd (MAP_ROTATION ! 3)) \<noteq> [] \<and>
   rotation_table (snd (pick_unique_mode_maps scripted_source 3
     \<lparr>rotation_table = MAP_ROTATION, random_state = [3, 4, 0, 1, 2, 1]\<rparr>)) = MAP_ROTATION"
proof -
  have "MAP_ROTATION ! 3 \<in> set MAP_ROTATION"
    by (simp add: length_MAP_ROTATION)
  then show ?thesis
    using rotation_table_invariant [of scripted_source 3
      "\<lparr>rotation_table = MAP_ROTATION, random_state = [3, 4, 0, 1, 2, 1]\<rparr>"]
    by (simp add: rotation_ok_def)
qed

lemma pick_entry_emoji:
  assumes pre: "\<forall>item \<in> set pre. payload_maps (snd item) \<noteq> []"
    and p: "payload_maps p \<noteq> []"
    and post: "\<forall>item \<in> set post. payload_maps (snd item) \<noteq> []"
    and lo: "1 \<le> cnt" and hi: "cnt \<le> int (length (rotation_table st))"
    and smp: "fst (sample RS (rotation_table st) (nat cnt) (random_state st)) = pre @ (m, p) # post"
  shows "\<exists>sel. fst (pick_unique_mode_maps RS cnt st) = Inr sel \<and>
           length sel = length pre + 1 + length post \<and>
           mode (sel ! length pre) = m \<and> emoji (sel ! length pre) = payload_emoji p"
proof -
  let ?items = "fst (sample RS (rotation_table st) (nat cnt) (random_state st))"
  have "\<forall>item \<in> set ?items. payload_maps (snd item) \<noteq> []"
    using pre p post by (auto simp: smp)
  from pick_no_failure [OF lo hi this]
  obtain sel where sel: "fst (pick_unique_mode_maps RS cnt st) = Inr sel" ..
  note rel = pick_Inr_entries [OF sel]
  have len: "length sel = length pre + 1 + length post"
    using list_all2_lengthD [OF rel] by (simp add: smp)
  have "length pre < length ?items" by (simp add: smp)
  from list_all2_nthD [OF rel this]
  have "mode (sel ! length pre) = m \<and> emoji (sel ! length pre) = payload_emoji p"
    by (simp add: smp)
  with sel len show ?thesis by blast
qed

lemma example_missing_maps_sample:
  "fst (sample scripted_source
      [(''A'', \<lparr>emoji_entry = None, maps_entry = Some [''x'']\<rparr>),
       (''B'', \<lparr>emoji_entry = Some ''b'', maps_entry = None\<rparr>)] 2 [0, 0, 0]) =
   [(''A'', \<lparr>emoji_entry = None, maps_entry = Some [''x'']\<rparr>)] @
     (''B'', \<lparr>emoji_entry = Some ''b'', maps_entry = None\<rparr>) # []"
  by code_simp

lemma example_missing_emoji_sample:
  "fst (sample scripted_source
      [(''A'', \<lparr>emoji_entry = None, maps_entry = Some [''x'']\<rparr>),
       (''B'', \<lparr>emoji_entry = Some ''b'', maps_entry = None\<rparr>)] 1 [0, 0, 0]) =
   [] @ (''A'', \<lparr>emoji_entry = None, maps_entry = Some [''x'']\<rparr>) # []"
  by code_simp

text \<open>
  C9. Take a valid count and the first sampled entry \<open>(m, p)\<close> that could fail (all entries
  sampled before it have maps). If \<open>p\<close> lacks the \<open>"maps"\<close> key, the call raises the same
  \<open>ValueError\<close>, message included, as when the key holds an empty sequence. If \<open>p\<close> lacks
  the \<open>"emoji"\<close> key and no sampled entry is without maps, the call returns, and the value
  made for \<open>m\<close> has the empty string as its emoji.
\<close>

theorem pick_unique_mode_maps_missing_keys:
  assumes lo: "1 \<le> cnt" and hi: "cnt \<le> int (length (rotation_table st))"
    and smp: "fst (sample RS (rotation_table st) (nat cnt) (random_state st)) = pre @ (m, p) # post"
    and pre: "\<forall>item \<in> set pre. payload_maps (snd item) \<noteq> []"
  shows "(maps_entry p = None \<or> maps_entry p = Some [] \<longrightarrow>
            fst (pick_unique_mode_maps RS cnt st) =
              Inl (ValueError (''mode '' @ [CHR 0x27] @ m @ [CHR 0x27] @ '' has no maps configured''))) \<and>
         (emoji_entry p = None \<and> payload_maps p \<noteq> [] \<and>
            (\<forall>item \<in> set post. payload_maps (snd item) \<noteq> []) \<longrightarrow>
            (\<exists>sel. fst (pick_unique_mode_maps RS cnt st) = Inr sel \<and>
               length sel = length pre + 1 + length post \<and>
               mode (sel ! length pre) = m \<and> emoji (sel ! length pre) = []))"
proof (intro conjI impI)
  assume "maps_entry p = None \<or> maps_entry p = Some []"
  then have "payload_maps p = []"
    by (auto simp: payload_maps_def)
  from select_maps_first_failure [OF pre this]
  show "fst (pick_unique_mode_maps RS cnt st) =
      Inl (ValueError (''mode '' @ [CHR 0x27] @ m @ [CHR 0x27] @ '' has no maps configured''))"
    by (simp add: pick_valid [OF lo hi] smp)
next
  assume a: "emoji_entry p = None \<and> payload_maps p \<noteq> [] \<and>
            (\<forall>item \<in> set post. payload_maps (snd item) \<noteq> [])"
  then have "payload_emoji p = []" by (simp add: payload_emoji_def)
  with pick_entry_emoji [OF pre _ _ lo hi smp] a
  show "\<exists>sel. fst (pick_unique_mode_maps RS cnt st) = Inr sel \<and>
               length sel = length pre + 1 + length post \<and>
               mode (sel ! length pre) = m \<and> emoji (sel ! length pre) = []"
    by simp
qed

theorem pick_unique_mode_maps_missing_keys_witness:
  "fst (pick_unique_mode_maps scripted_source 2
     \<lparr>rotation_table =
        [(''A'', \<lparr>emoji_entry = None, maps_entry = Some [''x'']\<rparr>),
         (''B'', \<lparr>emoji_entry = Some ''b'', maps_entry = None\<rparr>)],
      random_state = [0, 0, 0]\<rparr>) = Inl (ValueError ''mode 'B' has no maps configured'') \<and>
   (\<exists>sel. fst (pick_unique_mode_maps scripted_source 1
     \<lparr>rotation_table =
        [(''A'', \<lparr>emoji_entry = None, maps_entry = Some [''x'']\<rparr>),
         (''B'', \<lparr>emoji_entry = Some ''b'', maps_entry = None\<rparr>)],
      random_state = [0, 0, 0]\<rparr>) = Inr sel \<and>
      length sel = 1 \<and> mode (sel ! 0) = ''A'' \<and> emoji (sel ! 0) = [])"
proof -
  let ?A = "(''A'', \<lparr>emoji_entry = None, maps_entry = Some [''x'']\<rparr>)"
  let ?pB = "\<lparr>emoji_entry = Some ''b'', maps_entry = None\<rparr>"
  let ?st = "\<lparr>rotation_table = [?A, (''B'', ?pB)], random_state = [0, 0, 0::nat]\<rparr>"
  have s2: "fst (sample scripted_source (rotation_table ?st) (nat 2) (random_state ?st)) =
      [?A] @ (''B'', ?pB) # []"
    using example_missing_maps_sample by simp
  have s1: "fst (sample scripted_source (rotation_table ?st) (nat 1) (random_state ?st)) =
      [] @ ?A # []"
    using example_missing_emoji_sample by simp
  have pre: "\<forall>item \<in> set [?A]. payload_maps (snd item) \<noteq> []"
    by (simp add: payload_maps_def)
  have "fst (pick_unique_mode_maps scripted_source 2 ?st) =
      Inl (ValueError ''mode 'B' has no maps configured'')"
    using pick_unique_mode_maps_missing_keys [OF _ _ s2 pre] by simp
  moreover have "\<exists>sel. fst (pick_unique_mode_maps scripted_source 1 ?st) = Inr sel \<and>
      length sel = 1 \<and> mode (sel ! 0) = ''A'' \<and> emoji (sel ! 0) = []"
    using pick_unique_mode_maps_missing_keys [OF _ _ s1] by (simp add: payload_maps_def)
  ultimately show ?thesis by blast
qed

lemma MAP_ROTATION_lookup:
  "map_of MAP_ROTATION ''Braquage'' = Some (snd (MAP_ROTATION ! 3))"
  "map_of MAP_ROTATION ''Prime'' = Some (snd (MAP_ROTATION ! 5))"
  "map_of MAP_ROTATION ''Razzia de gemmes'' = Some (snd (MAP_ROTATION ! 0))"
  by (simp_all add: MAP_ROTATION_def)

lemma MAP_ROTATION_entry:
  assumes "item \<in> set MAP_ROTATION"
  shows "map_of MAP_ROTATION (fst item) = Some (snd item)"
proof -
  have "distinct (map fst MAP_ROTATION)"
    using MAP_ROTATION_ok by (simp add: rotation_ok_def)
  moreover from assms have "(fst item, snd item) \<in> set MAP_ROTATION" by simp
  ultimately show ?thesis by (rule map_of_is_SomeI)
qed


lemma MAP_ROTATION_nth:
  "snd (MAP_ROTATION ! 3) =
        \<lparr>emoji_entry = Some ''<:Heist:1436473730812481546>'',
         maps_entry = Some [''C'est chaud patate'',
                            ''Arr'' @ e_circumflex @ ''t au stand'',
                            ''Zone s'' @ e_acute @ ''curis'' @ e_acute @ ''e'']\<rparr>"
  "snd (MAP_ROTATION ! 5) =
        \<lparr>emoji_entry = Some ''<:Bounty:1436473727519948962>'',
         maps_entry = Some [''Cachette secr'' @ e_grave @ ''te'',
                            E_acute @ ''toile filante'', ''Mille-feuille'']\<rparr>"
  "snd (MAP_ROTATION ! 0) =
        \<lparr>emoji_entry = Some ''<:GemGrab:1436473738765008976>'',
         maps_entry = Some [''Mine hard-rock'', ''Tunnel de mine'', ''Bruissements'']\<rparr>"
  by (simp_all add: MAP_ROTATION_def)

lemma scripted_choices:
  "choice scripted_source [''C'est chaud patate'', ''Arr'' @ e_circumflex @ ''t au stand'',
      ''Zone s'' @ e_acute @ ''curis'' @ e_acute @ ''e''] [1, 2, 1] =
     (''Arr'' @ e_circumflex @ ''t au stand'', [2, 1])"
  "choice scripted_source [''Cachette secr'' @ e_grave @ ''te'', E_acute @ ''toile filante'',
      ''Mille-feuille''] [2, 1] = (''Mille-feuille'', [1])"
  "choice scripted_source [''Mine hard-rock'', ''Tunnel de mine'', ''Bruissements''] [1] =
     (''Tunnel de mine'', [])"
  by code_simp+

text \<open>
  C6. On \<open>MAP_ROTATION\<close>, with a random source whose \<open>sample\<close> of three entries gives the
  modes Braquage, Prime, Razzia de gemmes in that order, and whose three \<open>choice\<close> calls that
  follow give the second map of Braquage, the third of Prime and the second of Razzia de
  gemmes, \<open>pick_unique_mode_maps(count=3)\<close> returns exactly these three values in that
  order, each with the emoji of its mode in the table.
\<close>

theorem pick_unique_mode_maps_seeded_scenario:
  assumes rs: "random_source_ok RS"
    and tab: "rotation_table st = MAP_ROTATION"
    and smp: "sample RS MAP_ROTATION 3 (random_state st) = (items, s1)"
    and modes: "map fst items = [''Braquage'', ''Prime'', ''Razzia de gemmes'']"
    and ch1: "choice RS [''C'est chaud patate'', ''Arr'' @ e_circumflex @ ''t au stand'',
                         ''Zone s'' @ e_acute @ ''curis'' @ e_acute @ ''e''] s1 =
                (''Arr'' @ e_circumflex @ ''t au stand'', s2)"
    and ch2: "choice RS [''Cachette secr'' @ e_grave @ ''te'', E_acute @ ''toile filante'',
                         ''Mille-feuille''] s2 = (''Mille-feuille'', s3)"
    and ch3: "choice RS [''Mine hard-rock'', ''Tunnel de mine'', ''Bruissements''] s3 =
                (''Tunnel de mine'', s4)"
  shows "pick_unique_mode_maps RS 3 st =
     (Inr [\<lparr>mode = ''Braquage'', map_name = ''Arr'' @ e_circumflex @ ''t au stand'',
             emoji = ''<:Heist:1436473730812481546>''\<rparr>,
           \<lparr>mode = ''Prime'', map_name = ''Mille-feuille'',
             emoji = ''<:Bounty:1436473727519948962>''\<rparr>,
           \<lparr>mode = ''Razzia de gemmes'', map_name = ''Tunnel de mine'',
             emoji = ''<:GemGrab:1436473738765008976>''\<rparr>],
      st\<lparr>random_state := s4\<rparr>)"
proof -
  have "3 \<le> length MAP_ROTATION" by (simp add: length_MAP_ROTATION)
  from sample_in_table [OF rs this, of "random_state st"]
  have sub: "set items \<subseteq> set MAP_ROTATION" by (simp add: smp)
  from modes obtain a b c where items: "items = [a, b, c]"
    and fsts: "fst a = ''Braquage''" "fst b = ''Prime''" "fst c = ''Razzia de gemmes''"
    by (auto simp only: map_eq_Cons_conv list.map_disc_iff)
  from sub items have mem: "a \<in> set MAP_ROTATION" "b \<in> set MAP_ROTATION" "c \<in> set MAP_ROTATION"
    by simp_all
  have a: "a = (''Braquage'', snd (MAP_ROTATION ! 3))"
    using MAP_ROTATION_entry [OF mem(1)] fsts(1) MAP_ROTATION_lookup(1)
    by (metis option.inject prod.collapse)
  have b: "b = (''Prime'', snd (MAP_ROTATION ! 5))"
    using MAP_ROTATION_entry [OF mem(2)] fsts(2) MAP_ROTATION_lookup(2)
    by (metis option.inject prod.collapse)
  have c: "c = (''Razzia de gemmes'', snd (MAP_ROTATION ! 0))"
    using MAP_ROTATION_entry [OF mem(3)] fsts(3) MAP_ROTATION_lookup(3)
    by (metis option.inject prod.collapse)
  have loop: "select_maps RS [a, b, c] [] s1 =
     (Inr [\<lparr>mode = ''Braquage'', map_name = ''Arr'' @ e_circumflex @ ''t au stand'',
             emoji = ''<:Heist:1436473730812481546>''\<rparr>,
           \<lparr>mode = ''Prime'', map_name = ''Mille-feuille'',
             emoji = ''<:Bounty:1436473727519948962>''\<rparr>,
           \<lparr>mode = ''Razzia de gemmes'', map_name = ''Tunnel de mine'',
             emoji = ''<:GemGrab:1436473738765008976>''\<rparr>], s4)"
    unfolding a b c
    using ch1 ch2 ch3
    by (simp add: MAP_ROTATION_nth payload_maps_def payload_emoji_def)
  have "1 \<le> (3::int)" and "(3::int) \<le> int (length (rotation_table st))"
    by (simp_all add: tab length_MAP_ROTATION)
  from pick_valid [OF this, of RS] show ?thesis
    by (simp add: tab smp items loop)
qed

theorem pick_unique_mode_maps_seeded_scenario_witness:
  "pick_unique_mode_maps scripted_source 3
     \<lparr>rotation_table = MAP_ROTATION, random_state = [3, 4, 0, 1, 2, 1]\<rparr> =
   (Inr [\<lparr>mode = ''Braquage'', map_name = ''Arr'' @ e_circumflex @ ''t au stand'',
           emoji = ''<:Heist:1436473730812481546>''\<rparr>,
         \<lparr>mode = ''Prime'', map_name = ''Mille-feuille'',
           emoji = ''<:Bounty:1436473727519948962>''\<rparr>,
         \<lparr>mode = ''Razzia de gemmes'', map_name = ''Tunnel de mine'',
           emoji = ''<:GemGrab:1436473738765008976>''\<rparr>],
    \<lparr>rotation_table = MAP_ROTATION, random_state = []\<rparr>)"
proof -
  let ?st = "\<lparr>rotation_table = MAP_ROTATION, random_state = [3, 4, 0, 1, 2, 1::nat]\<rparr>"
  have smp: "sample scripted_source MAP_ROTATION 3 (random_state ?st) =
      ([MAP_ROTATION ! 3, MAP_ROTATION ! 5, MAP_ROTATION ! 0], [1, 2, 1])"
    using scripted_sample_run by (simp del: One_nat_def)
  have modes: "map fst [MAP_ROTATION ! 3, MAP_ROTATION ! 5, MAP_ROTATION ! 0] =
      [''Braquage'', ''Prime'', ''Razzia de gemmes'']"
    by (simp add: scripted_sample_modes)
  have tab: "rotation_table ?st = MAP_ROTATION" by simp
  from pick_unique_mode_maps_seeded_scenario
    [OF scripted_source_ok tab smp modes scripted_choices(1) scripted_choices(2)
        scripted_choices(3)]
  show ?thesis by simp
qed

subsection \<open>\<open>format_rotation_message\<close>\<close>

lemma format_loop_append: "format_loop selection acc = acc @ map chunk selection"
  by (induction selection arbitrary: acc) simp_all

lemma str_join_lines:
  "xs \<noteq> [] \<Longrightarrow> str_join sep xs = concat (map (\<lambda>x. x @ sep) (butlast xs)) @ last xs"
  by (induction sep xs rule: str_join.induct) simp_all

text \<open>
  C3. \<open>format_rotation_message\<close> is total. On the empty selection it returns the empty
  string. On any other selection it returns the line
  \<open>{emoji} **{mode}** \<emdash> {map_name}\<close> of every item, in the order of the input, each line
  but the last followed by one newline and the last line followed by nothing.
\<close>

theorem format_rotation_message_lines:
  "format_rotation_message [] = [] \<and>
   (selection \<noteq> [] \<longrightarrow>
      format_rotation_message selection =
        concat (map (\<lambda>item. emoji item @ '' **'' @ mode item @ ''** '' @ em_dash @ '' '' @
                            map_name item @ newline) (butlast selection)) @
        (emoji (last selection) @ '' **'' @ mode (last selection) @ ''** '' @ em_dash @ '' '' @
           map_name (last selection)))"
proof (intro conjI impI)
  show "format_rotation_message [] = []"
    by (simp add: format_rotation_message_def)
next
  assume ne: "selection \<noteq> []"
  then have "map chunk selection \<noteq> []" by simp
  from str_join_lines [OF this, of newline]
  have "format_rotation_message selection =
      concat (map (\<lambda>x. x @ newline) (butlast (map chunk selection))) @ last (map chunk selection)"
    by (simp add: format_rotation_message_def format_loop_append)
  also have "butlast (map chunk selection) = map chunk (butlast selection)"
    by (simp add: map_butlast)
  also have "last (map chunk selection) = chunk (last selection)"
    using ne by (simp add: last_map)
  finally show "format_rotation_message selection =
        concat (map (\<lambda>item. emoji item @ '' **'' @ mode item @ ''** '' @ em_dash @ '' '' @
                            map_name item @ newline) (butlast selection)) @
        (emoji (last selection) @ '' **'' @ mode (last selection) @ ''** '' @ em_dash @ '' '' @
           map_name (last selection))"
    by (simp add: chunk_def comp_def)
qed

theorem format_rotation_message_lines_witness:
  "format_rotation_message
     [\<lparr>mode = ''Mode A'', map_name = ''Carte 1'', emoji = ''<:A:1>''\<rparr>,
      \<lparr>mode = ''Mode B'', map_name = ''Carte 2'', emoji = ''<:B:2>''\<rparr>] =
   ''<:A:1> **Mode A** '' @ em_dash @ '' Carte 1'' @ newline @
   ''<:B:2> **Mode B** '' @ em_dash @ '' Carte 2''"
  using format_rotation_message_lines [of
     "[\<lparr>mode = ''Mode A'', map_name = ''Carte 1'', emoji = ''<:A:1>''\<rparr>,
       \<lparr>mode = ''Mode B'', map_name = ''Carte 2'', emoji = ''<:B:2>''\<rparr>]"]
  by simp

end
